theory Spec2Isabelle
  imports
    Main
    "HOL-Library.AList"
    "HOL-Library.Char_ord"
    "HOL-Library.List_Lexorder"
    "HOL-Library.Product_Lexorder"
begin

section \<open>Strings\<close>

text \<open>
  A Python \<open>str\<close> is modelled as a \<open>string\<close> whose characters are the code points
  below 256.  On that range \<open>str.isspace\<close> (which \<open>strip()\<close>, \<open>split()\<close> and the regular
  expression class \<open>\s\<close> all use) holds of 9..13, 28..32, 133 and 160, and \<open>str.lower\<close>
  moves A..Z and the Latin-1 capitals 192..222 (without 215) up by 32.
\<close>

definition is_space :: "char \<Rightarrow> bool" where
  "is_space c \<longleftrightarrow>
     (let n = (of_char c :: nat)
      in (9 \<le> n \<and> n \<le> 13) \<or> (28 \<le> n \<and> n \<le> 32) \<or> n = 133 \<or> n = 160)"

definition lower_char :: "char \<Rightarrow> char" where
  "lower_char c =
     (let n = (of_char c :: nat)
      in if (65 \<le> n \<and> n \<le> 90) \<or> (192 \<le> n \<and> n \<le> 222 \<and> n \<noteq> 215)
         then char_of (n + 32) else c)"

definition lower :: "string \<Rightarrow> string" where
  \<comment> \<open>\<open>s.lower()\<close>\<close>
  "lower s = map lower_char s"

definition strip :: "string \<Rightarrow> string" where
  \<comment> \<open>\<open>s.strip()\<close>\<close>
  "strip s = rev (dropWhile is_space (rev (dropWhile is_space s)))"

definition replace_char :: "char \<Rightarrow> char \<Rightarrow> string \<Rightarrow> string" where
  \<comment> \<open>\<open>s.replace(a, b)\<close> for one-character \<open>a\<close> and \<open>b\<close>\<close>
  "replace_char a b s = map (\<lambda>c. if c = a then b else c) s"

fun split_acc :: "string \<Rightarrow> string \<Rightarrow> string list" where
  "split_acc w [] = (if w = [] then [] else [w])"
| "split_acc w (c # cs) =
     (if is_space c then (if w = [] then split_acc [] cs else w # split_acc [] cs)
      else split_acc (w @ [c]) cs)"

definition split_ws :: "string \<Rightarrow> string list" where
  \<comment> \<open>\<open>s.split()\<close>: the maximal runs of non-whitespace characters\<close>
  "split_ws s = split_acc [] s"

fun join :: "string \<Rightarrow> string list \<Rightarrow> string" where
  \<comment> \<open>\<open>sep.join(xs)\<close>\<close>
  "join sep [] = []"
| "join sep [x] = x"
| "join sep (x # y # ys) = x @ sep @ join sep (y # ys)"

fun sub_ws :: "bool \<Rightarrow> string \<Rightarrow> string" where
  \<comment> \<open>\<open>re.sub(r"\s+", " ", s)\<close>; the flag says that the previous character was whitespace\<close>
  "sub_ws in_run [] = []"
| "sub_ws in_run (c # cs) =
     (if is_space c then (if in_run then sub_ws True cs else CHR '' '' # sub_ws True cs)
      else c # sub_ws False cs)"

section \<open>Header normalizer and auto-mapper\<close>

definition COMMON_ALIASES :: "(string \<times> string list) list" where
  "COMMON_ALIASES =
    [(''full_name'', [''full name'', ''name'', ''contact name'', ''customer name'']),
     (''first_name'', [''first name'', ''firstname'', ''given name'']),
     (''last_name'', [''last name'', ''lastname'', ''surname'', ''family name'']),
     (''email'', [''email'', ''e-mail'', ''email address'']),
     (''phone'', [''phone'', ''telephone'', ''mobile'']),
     (''last_clean_date'',
        [''last clean date'', ''last_clean_date'', ''last service date'', ''service date'',
         ''date'']),
     (''clean_type'', [''clean type'', ''service'', ''service type'', ''type'']),
     (''invoice_amount_brutto'',
        [''invoice amount (brutto)'', ''invoice amount brutto'', ''brutto'', ''gross'',
         ''invoice amount'', ''amount''])]"

definition normalize_header :: "string \<Rightarrow> string" where
  "normalize_header h =
     join '' '' (split_ws (replace_char CHR ''_'' CHR '' '' (lower (strip h))))"

definition norm_cols :: "string list \<Rightarrow> (string \<times> string) list" where
  \<comment> \<open>\<open>{c: _normalize_header(c) for c in columns}\<close>, a dict in insertion order\<close>
  "norm_cols cols = foldl (\<lambda>d c. AList.update c (normalize_header c) d) [] cols"

definition reverse_of :: "(string \<times> string) list \<Rightarrow> (string \<times> string) list" where
  \<comment> \<open>\<open>{v: k for k, v in norm_cols.items()}\<close>\<close>
  "reverse_of d = foldl (\<lambda>r (k, v). AList.update v k r) [] d"

fun first_alias :: "(string \<times> string) list \<Rightarrow> string list \<Rightarrow> string option" where
  \<comment> \<open>the inner loop with its \<open>break\<close>: the header of the first alias found in \<open>reverse\<close>\<close>
  "first_alias reverse [] = None"
| "first_alias reverse (a # as) =
     (case map_of reverse (normalize_header a) of
        Some h \<Rightarrow> Some h
      | None \<Rightarrow> first_alias reverse as)"

definition build_auto_mapping :: "string list \<Rightarrow> (string \<rightharpoonup> string)" where
  "build_auto_mapping cols =
     (let reverse = reverse_of (norm_cols cols)
      in foldl (\<lambda>mapping (canonical, aliases).
                  case first_alias reverse aliases of
                    Some h \<Rightarrow> mapping(canonical \<mapsto> h)
                  | None \<Rightarrow> mapping)
               Map.empty COMMON_ALIASES)"

section \<open>Tables\<close>

text \<open>
  A cell is a string, a number, a timestamp, or missing.  \<open>Null\<close> is the missing value
  of a column of strings or numbers (\<open>None\<close>, \<open>NaN\<close>); \<open>NaT\<close> is the missing value of a
  column of timestamps, which is what \<open>pd.to_datetime\<close> returns.  \<open>pd.isna\<close> holds of
  both; \<open>fillna("")\<close> fills \<open>Null\<close> and leaves \<open>NaT\<close> where it is, since the library
  reads the empty string as \<open>NaT\<close> when the column holds timestamps.  A data frame is its
  column labels and its rows in order, each row with its index label; a row gives a cell
  for every column label and only the cells of the frame's own columns are ever read.
  The column labels of an input frame are pairwise different, as \<open>read_csv\<close> makes them.
\<close>

datatype cell = Null | Str string | Num int | Date int | NaT

type_synonym row = "string \<Rightarrow> cell"

record dataframe =
  columns :: "string list"
  rows :: "(int \<times> row) list"

text \<open>
  Two operations of the library are parameters of the model: what \<open>pd.to_datetime\<close>
  (with \<open>errors="coerce"\<close>) reads from a string or number, \<open>None\<close> standing for \<open>NaT\<close>, and
  the text \<open>astype(str)\<close> gives a number, a timestamp or \<open>NaT\<close>.  Both may depend on the
  whole series (format inference), so they receive it.  What the string methods make of
  a \<open>NaT\<close> differs between versions of the library; it matters only when \<open>date_field\<close>
  names the column the key is taken from, and the statements about keys leave those
  configurations out.
\<close>

record pandas =
  to_datetime :: "cell list \<Rightarrow> cell \<Rightarrow> int option"
  astype_str :: "cell list \<Rightarrow> cell \<Rightarrow> string"

definition column :: "string \<Rightarrow> dataframe \<Rightarrow> cell list" where
  \<comment> \<open>\<open>df[c]\<close>\<close>
  "column c df = map (\<lambda>(i, r). r c) (rows df)"

definition assign :: "string \<Rightarrow> cell list \<Rightarrow> dataframe \<Rightarrow> dataframe" where
  \<comment> \<open>\<open>df[c] = series\<close>, the series having the frame's own index\<close>
  "assign c vs df =
     \<lparr>columns = (if c \<in> set (columns df) then columns df else columns df @ [c]),
      rows = map2 (\<lambda>(i, r) v. (i, r(c := v))) (rows df) vs\<rparr>"

definition fillna :: "string \<Rightarrow> cell list \<Rightarrow> cell list" where
  \<comment> \<open>\<open>series.fillna(s)\<close>, for \<open>s = ""\<close> as everywhere in the source\<close>
  "fillna s col = map (\<lambda>c. case c of Null \<Rightarrow> Str s | _ \<Rightarrow> c) col"

definition astype_str_series :: "pandas \<Rightarrow> cell list \<Rightarrow> string list" where
  \<comment> \<open>\<open>series.astype(str)\<close>; every call of the source comes after \<open>fillna("")\<close>\<close>
  "astype_str_series pd col =
     map (\<lambda>c. case c of Str s \<Rightarrow> s | Null \<Rightarrow> ''nan'' | _ \<Rightarrow> astype_str pd col c) col"

definition to_datetime_series :: "pandas \<Rightarrow> cell list \<Rightarrow> cell list" where
  \<comment> \<open>\<open>pd.to_datetime(series, errors="coerce")\<close>\<close>
  "to_datetime_series pd col =
     map (\<lambda>c. case c of
                 Null \<Rightarrow> NaT
               | NaT \<Rightarrow> NaT
               | Date d \<Rightarrow> Date d
               | _ \<Rightarrow> (case to_datetime pd col c of None \<Rightarrow> NaT | Some d \<Rightarrow> Date d))
         col"

fun sort_code :: "cell \<Rightarrow> bool \<times> int \<times> string" where
  \<comment> \<open>the rank of a cell in \<open>sort_values\<close>, ascending, \<open>na_position="last"\<close> (the default)\<close>
  "sort_code Null = (True, 0, [])"
| "sort_code NaT = (True, 0, [])"
| "sort_code (Date d) = (False, d, [])"
| "sort_code (Num n) = (False, n, [])"
| "sort_code (Str s) = (False, 0, s)"

definition sort_values :: "string \<Rightarrow> string \<Rightarrow> dataframe \<Rightarrow> dataframe" where
  \<comment> \<open>\<open>df.sort_values([k, d], ascending=[True, True])\<close>, a stable sort\<close>
  "sort_values k d df =
     df\<lparr>rows := sort_key (\<lambda>(i, r). (sort_code (r k), sort_code (r d))) (rows df)\<rparr>"

fun keep_last :: "string \<Rightarrow> (int \<times> row) list \<Rightarrow> (int \<times> row) list" where
  "keep_last k [] = []"
| "keep_last k (x # xs) =
     (if snd x k \<in> (\<lambda>y. snd y k) ` set xs then keep_last k xs else x # keep_last k xs)"

definition drop_duplicates :: "string \<Rightarrow> dataframe \<Rightarrow> dataframe" where
  \<comment> \<open>\<open>df.drop_duplicates(subset=[k], keep="last")\<close>\<close>
  "drop_duplicates k df = df\<lparr>rows := keep_last k (rows df)\<rparr>"

definition groupby_size :: "string \<Rightarrow> dataframe \<Rightarrow> (cell \<times> nat) list" where
  \<comment> \<open>\<open>df.groupby(k).size()\<close>: the keys in ascending order, each with its number of rows\<close>
  "groupby_size k df =
     (let keys = column k df
      in map (\<lambda>key. (key, length (filter (\<lambda>x. x = key) keys)))
             (sort_key sort_code (remdups keys)))"

definition loc :: "int list \<Rightarrow> dataframe \<Rightarrow> dataframe" where
  \<comment> \<open>\<open>df.loc[labels]\<close>: for each label in turn, the rows that carry it\<close>
  "loc labels df =
     df\<lparr>rows := concat (map (\<lambda>l. filter (\<lambda>(i, r). i = l) (rows df)) labels)\<rparr>"

definition drop_column :: "string \<Rightarrow> dataframe \<Rightarrow> dataframe" where
  \<comment> \<open>\<open>df.drop(columns=[c], errors="ignore")\<close>\<close>
  "drop_column c df =
     \<lparr>columns = removeAll c (columns df),
      rows = map (\<lambda>(i, r). (i, r(c := Null))) (rows df)\<rparr>"

section \<open>The cleaning pipeline\<close>

record CleanConfig =
  date_field :: string
  dedupe_key :: string
  required :: "string list"
  mapping :: "(string \<rightharpoonup> string) option"

datatype row_ref = Ordinal int | Sentinel

record report_entry =
  row :: row_ref
  reason :: string

record CleanResult =
  cleaned :: dataframe
  report :: "report_entry list"

definition default_config :: CleanConfig where
  \<comment> \<open>the field defaults of the dataclass\<close>
  "default_config =
     \<lparr>date_field = ''last_clean_date'', dedupe_key = ''email'', required = [''full_name''],
      mapping = None\<rparr>"

definition canonical_cols :: "string list" where
  \<comment> \<open>\<open>set(COMMON_ALIASES.keys())\<close>; a Python set has no fixed iteration order, the model
     takes the order of the dictionary\<close>
  "canonical_cols = map fst COMMON_ALIASES"

definition project :: "(string \<rightharpoonup> string) \<Rightarrow> dataframe \<Rightarrow> dataframe" where
  "project m df =
     foldl (\<lambda>out canonical.
              case m canonical of
                None \<Rightarrow> out
              | Some src \<Rightarrow>
                  if src \<noteq> [] \<and> src \<in> set (columns df)
                  then assign canonical (column src df) out else out)
           \<lparr>columns = [], rows = map (\<lambda>(i, r). (i, \<lambda>c. Null)) (rows df)\<rparr>
           canonical_cols"

definition build_full_name :: "pandas \<Rightarrow> dataframe \<Rightarrow> dataframe" where
  "build_full_name pd out =
     (if ''full_name'' \<notin> set (columns out)
         \<and> {''first_name'', ''last_name''} \<subseteq> set (columns out)
      then assign ''full_name''
             (map Str (map strip
                (map2 (\<lambda>a b. a @ '' '' @ b)
                   (map strip (astype_str_series pd (fillna [] (column ''first_name'' out))))
                   (map strip (astype_str_series pd (fillna [] (column ''last_name'' out)))))))
             out
      else out)"

definition normalize_full_name :: "pandas \<Rightarrow> dataframe \<Rightarrow> dataframe" where
  "normalize_full_name pd out =
     (if ''full_name'' \<in> set (columns out)
      then assign ''full_name''
             (map Str (map strip (map (sub_ws False)
                (astype_str_series pd (fillna [] (column ''full_name'' out))))))
             out
      else out)"

definition normalize_email :: "pandas \<Rightarrow> dataframe \<Rightarrow> dataframe" where
  "normalize_email pd out =
     (if ''email'' \<in> set (columns out)
      then assign ''email''
             (map Str (map lower (map strip
                (astype_str_series pd (fillna [] (column ''email'' out))))))
             out
      else out)"

definition parse_date :: "pandas \<Rightarrow> string \<Rightarrow> dataframe \<Rightarrow> dataframe" where
  "parse_date pd d out =
     (if d \<in> set (columns out)
      then assign d (to_datetime_series pd (column d out)) out
      else out)"

definition canonicalize :: "pandas \<Rightarrow> CleanConfig \<Rightarrow> (string \<rightharpoonup> string) \<Rightarrow> dataframe \<Rightarrow> dataframe" where
  \<comment> \<open>the table \<open>out\<close> as validation finds it\<close>
  "canonicalize pd cfg m df =
     parse_date pd (date_field cfg)
       (normalize_email pd (normalize_full_name pd (build_full_name pd (project m df))))"

fun is_missing :: "cell \<Rightarrow> bool" where
  \<comment> \<open>\<open>v is None\<close>, a blank string, or \<open>pd.isna(v)\<close>\<close>
  "is_missing Null = True"
| "is_missing NaT = True"
| "is_missing (Str s) = (strip s = [])"
| "is_missing _ = False"

definition missing_required :: "string list \<Rightarrow> string list \<Rightarrow> row \<Rightarrow> string list" where
  "missing_required cols reqs r = filter (\<lambda>req. req \<notin> set cols \<or> is_missing (r req)) reqs"

fun validate :: "string list \<Rightarrow> string list \<Rightarrow> (int \<times> row) list \<Rightarrow> report_entry list \<times> bool list" where
  \<comment> \<open>the loop over \<open>out.iterrows()\<close>: the report rows and \<open>mask_keep\<close>\<close>
  "validate cols reqs [] = ([], [])"
| "validate cols reqs ((idx, r) # rest) =
     (let miss = missing_required cols reqs r;
          (report_rows, mask_keep) = validate cols reqs rest
      in if miss \<noteq> []
         then (\<lparr>row = Ordinal idx, reason = ''missing_required:'' @ join '','' miss\<rparr> # report_rows,
               False # mask_keep)
         else (report_rows, True # mask_keep))"

definition select_valid :: "bool list \<Rightarrow> dataframe \<Rightarrow> dataframe" where
  \<comment> \<open>\<open>out.loc[pd.Index(out.index)[mask_keep]]\<close>\<close>
  "select_valid mask_keep out =
     loc (map fst (filter snd (zip (map fst (rows out)) mask_keep))) out"

definition key_series :: "CleanConfig \<Rightarrow> dataframe \<Rightarrow> cell list" where
  "key_series cfg out_valid =
     (if dedupe_key cfg = ''email'' \<and> ''email'' \<in> set (columns out_valid)
      then fillna [] (column ''email'' out_valid)
      else fillna []
             (if ''full_name'' \<in> set (columns out_valid)
              then column ''full_name'' out_valid
              else replicate (length (rows out_valid)) (Str [])))"

definition with_dedupe_key :: "pandas \<Rightarrow> CleanConfig \<Rightarrow> dataframe \<Rightarrow> dataframe" where
  \<comment> \<open>\<open>out_valid["_dedupe_key"] = key_series.astype(str).str.strip().str.lower()\<close>\<close>
  "with_dedupe_key pd cfg out_valid =
     assign ''_dedupe_key''
       (map Str (map lower (map strip (astype_str_series pd (key_series cfg out_valid)))))
       out_valid"

definition key_text :: "pandas \<Rightarrow> cell \<Rightarrow> string" where
  \<comment> \<open>a key inside the f-string; the key column holds strings only\<close>
  "key_text pd k = (case k of Str s \<Rightarrow> s | Null \<Rightarrow> ''nan'' | _ \<Rightarrow> astype_str pd [k] k)"

definition dedupe_report :: "pandas \<Rightarrow> dataframe \<Rightarrow> report_entry list" where
  "dedupe_report pd sorted_df =
     map (\<lambda>(k, n). \<lparr>row = Sentinel, reason = ''deduped_removed_duplicates:key='' @ key_text pd k\<rparr>)
         (filter (\<lambda>(k, n). n > 1) (groupby_size ''_dedupe_key'' sorted_df))"

definition deduplicate :: "pandas \<Rightarrow> CleanConfig \<Rightarrow> dataframe \<Rightarrow> dataframe \<times> report_entry list" where
  "deduplicate pd cfg keyed =
     (if date_field cfg \<in> set (columns keyed)
      then (let sorted_df = sort_values ''_dedupe_key'' (date_field cfg) keyed
            in (drop_duplicates ''_dedupe_key'' sorted_df, dedupe_report pd sorted_df))
      else (drop_duplicates ''_dedupe_key'' keyed, []))"

definition preferred_order :: "string list" where
  "preferred_order =
     [''full_name'', ''email'', ''phone'', ''last_clean_date'', ''clean_type'',
      ''invoice_amount_brutto'']"

definition reorder :: "dataframe \<Rightarrow> dataframe" where
  \<comment> \<open>\<open>deduped[ordered]\<close>\<close>
  "reorder df =
     df\<lparr>columns := filter (\<lambda>c. c \<in> set (columns df)) preferred_order
                     @ filter (\<lambda>c. c \<notin> set preferred_order) (columns df)\<rparr>"

definition clean_contacts_csv ::
    "pandas \<Rightarrow> dataframe \<Rightarrow> CleanConfig \<Rightarrow> CleanResult \<times> CleanConfig" where
  \<comment> \<open>the result, and the configuration object as the call leaves it\<close>
  "clean_contacts_csv pd df cfg0 =
     (let cfg = (if mapping cfg0 = None
                 then cfg0\<lparr>mapping := Some (build_auto_mapping (columns df))\<rparr> else cfg0);
          out = canonicalize pd cfg (the (mapping cfg)) df;
          (report_rows, mask_keep) = validate (columns out) (required cfg) (rows out);
          out_valid = select_valid mask_keep out;
          keyed = with_dedupe_key pd cfg out_valid;
          (deduped, dedupe_rows) = deduplicate pd cfg keyed
      in (\<lparr>cleaned = reorder (drop_column ''_dedupe_key'' deduped),
           report = report_rows @ dedupe_rows\<rparr>, cfg))"

text \<open>
  The construction of a configuration is the generated \<open>__init__\<close> of the dataclass: it
  stores its arguments and checks nothing.  The only check of \<open>dedupe_key\<close> is the
  \<open>choices\<close> list of the command line parser in \<open>main.py\<close>.
\<close>

definition make_config ::
    "string \<Rightarrow> string \<Rightarrow> string list \<Rightarrow> (string \<rightharpoonup> string) option \<Rightarrow> CleanConfig" where
  "make_config d k reqs m = \<lparr>date_field = d, dedupe_key = k, required = reqs, mapping = m\<rparr>"

datatype cli_error = InvalidChoice string

definition dedupe_key_arg :: "string \<Rightarrow> cli_error + string" where
  \<comment> \<open>\<open>--dedupe-key\<close> with \<open>choices=["email", "full_name"]\<close>\<close>
  "dedupe_key_arg v = (if v \<in> set [''email'', ''full_name''] then Inr v else Inl (InvalidChoice v))"

section \<open>The stages of one run\<close>

text \<open>
  The intermediate tables of \<open>clean_contacts_csv\<close>, named so that statements can speak
  about them: the configuration after the mapping default, \<open>out\<close>, \<open>out_valid\<close>, the
  table with its key column, and \<open>deduped\<close> before the key column is dropped.
\<close>

definition configured :: "dataframe \<Rightarrow> CleanConfig \<Rightarrow> CleanConfig" where
  "configured df cfg0 =
     (if mapping cfg0 = None
      then cfg0\<lparr>mapping := Some (build_auto_mapping (columns df))\<rparr> else cfg0)"

definition out_of :: "pandas \<Rightarrow> dataframe \<Rightarrow> CleanConfig \<Rightarrow> dataframe" where
  "out_of pd df cfg0 =
     canonicalize pd (configured df cfg0) (the (mapping (configured df cfg0))) df"

definition out_valid_of :: "pandas \<Rightarrow> dataframe \<Rightarrow> CleanConfig \<Rightarrow> dataframe" where
  "out_valid_of pd df cfg0 =
     (let out = out_of pd df cfg0
      in select_valid (snd (validate (columns out) (required cfg0) (rows out))) out)"

definition keyed_of :: "pandas \<Rightarrow> dataframe \<Rightarrow> CleanConfig \<Rightarrow> dataframe" where
  "keyed_of pd df cfg0 = with_dedupe_key pd (configured df cfg0) (out_valid_of pd df cfg0)"

definition deduped_of :: "pandas \<Rightarrow> dataframe \<Rightarrow> CleanConfig \<Rightarrow> dataframe" where
  "deduped_of pd df cfg0 = fst (deduplicate pd (configured df cfg0) (keyed_of pd df cfg0))"

definition mapping_of :: "dataframe \<Rightarrow> CleanConfig \<Rightarrow> (string \<rightharpoonup> string)" where
  \<comment> \<open>the mapping a run works with\<close>
  "mapping_of df cfg = the (mapping (configured df cfg))"


definition to_date :: "pandas \<Rightarrow> cell list \<Rightarrow> cell \<Rightarrow> cell" where
  "to_date pd ctx c =
     (case c of Null \<Rightarrow> NaT | NaT \<Rightarrow> NaT | Date d \<Rightarrow> Date d
      | _ \<Rightarrow> (case to_datetime pd ctx c of None \<Rightarrow> NaT | Some d \<Rightarrow> Date d))"


definition header_char :: "char \<Rightarrow> char" where
  \<comment> \<open>what a character of a header is compared as: lower case, the underscore a blank\<close>
  "header_char c = (if lower_char c = CHR ''_'' then CHR '' '' else lower_char c)"


definition table :: "string list \<Rightarrow> cell list list \<Rightarrow> dataframe" where
  \<comment> \<open>a frame as \<open>read_csv\<close> returns it: the rows numbered from 0\<close>
  "table cols rs =
     \<lparr>columns = cols,
      rows = map (\<lambda>(i, vs). (int i, \<lambda>c. case map_of (zip cols vs) c of Some v \<Rightarrow> v | None \<Rightarrow> Null))
                 (enumerate 0 rs)\<rparr>"

text \<open>
  An instance of the library for the worked examples: \<open>to_datetime\<close> reads the strings
  of the form YYYY-MM-DD, as the number yyyymmdd, which keeps their order, and nothing
  else; the examples never ask for the text of a number or a timestamp.
\<close>

definition digit_of :: "char \<Rightarrow> int option" where
  "digit_of c =
     (let n = (of_char c :: nat) in if 48 \<le> n \<and> n \<le> 57 then Some (int n - 48) else None)"

fun digits_value :: "int \<Rightarrow> string \<Rightarrow> int option" where
  "digits_value acc [] = Some acc"
| "digits_value acc (c # cs) =
     (case digit_of c of None \<Rightarrow> None | Some d \<Rightarrow> digits_value (10 * acc + d) cs)"

definition iso_date :: "string \<Rightarrow> int option" where
  "iso_date s =
     (if length s = 10 \<and> s ! 4 = CHR ''-'' \<and> s ! 7 = CHR ''-''
      then digits_value 0 (take 4 s @ take 2 (drop 5 s) @ drop 8 s) else None)"

definition iso_pandas :: pandas where
  "iso_pandas =
     \<lparr>to_datetime = (\<lambda>col c. case c of Str s \<Rightarrow> iso_date s | _ \<Rightarrow> None),
      astype_str = (\<lambda>col c. [])\<rparr>"

section \<open>Series and frames, row by row\<close>

lemma map_zip_same: "map G (zip xs (map f xs)) = map (\<lambda>x. G (x, f x)) xs"
  by (induction xs) simp_all


lemma rows_assign:
  "rows (assign c (map f (rows df)) df) = map (\<lambda>p. (fst p, (snd p)(c := f p))) (rows df)"
  by (simp add: assign_def map_zip_same split_def)

lemma columns_assign:
  "columns (assign c vs df) = (if c \<in> set (columns df) then columns df else columns df @ [c])"
  by (simp add: assign_def)

lemma column_conv: "column c df = map (\<lambda>p. snd p c) (rows df)"
  by (simp add: column_def split_def)


lemma to_datetime_series_conv: "to_datetime_series pd col = map (to_date pd col) col"
  by (simp add: to_datetime_series_def to_date_def)







lemma rows_parse_date:
  "rows (parse_date pd d out) =
     (if d \<in> set (columns out)
      then map (\<lambda>p. (fst p, (snd p)(d := to_date pd (column d out) (snd p d)))) (rows out)
      else rows out)"
  by (simp add: parse_date_def to_datetime_series_conv column_conv o_def rows_assign[symmetric])

lemma columns_parse_date: "columns (parse_date pd d out) = columns out"
  by (simp add: parse_date_def columns_assign)


















lemma clean_contacts_csv_stages:
  "clean_contacts_csv pd df cfg0 =
     (\<lparr>cleaned = reorder (drop_column ''_dedupe_key'' (deduped_of pd df cfg0)),
       report = fst (validate (columns (out_of pd df cfg0)) (required cfg0) (rows (out_of pd df cfg0)))
                @ snd (deduplicate pd (configured df cfg0) (keyed_of pd df cfg0))\<rparr>,
      configured df cfg0)"
proof -
  have req: "required (configured df cfg0) = required cfg0"
    by (simp add: configured_def)
  show ?thesis
    unfolding clean_contacts_csv_def configured_def[symmetric]
    by (simp add: Let_def split_def deduped_of_def keyed_of_def out_valid_of_def out_of_def req)
qed

section \<open>What a run depends on in its configuration\<close>

lemma canonicalize_cong:
  "date_field cfg = date_field cfg' \<Longrightarrow> canonicalize pd cfg m df = canonicalize pd cfg' m df"
  by (simp add: canonicalize_def)

lemma with_dedupe_key_cong:
  "(dedupe_key cfg = ''email'') = (dedupe_key cfg' = ''email'')
     \<Longrightarrow> with_dedupe_key pd cfg ov = with_dedupe_key pd cfg' ov"
  by (simp add: with_dedupe_key_def key_series_def)

lemma deduplicate_cong:
  "date_field cfg = date_field cfg' \<Longrightarrow> deduplicate pd cfg keyed = deduplicate pd cfg' keyed"
  by (simp add: deduplicate_def)

lemma result_cong:
  assumes "date_field cfg = date_field cfg'" and "required cfg = required cfg'"
    and "mapping cfg = mapping cfg'"
    and "(dedupe_key cfg = ''email'') = (dedupe_key cfg' = ''email'')"
  shows "fst (clean_contacts_csv pd df cfg) = fst (clean_contacts_csv pd df cfg')"
proof -
  have c: "date_field (configured df cfg) = date_field (configured df cfg')"
    "mapping (configured df cfg) = mapping (configured df cfg')"
    "(dedupe_key (configured df cfg) = ''email'') = (dedupe_key (configured df cfg') = ''email'')"
    using assms by (simp_all add: configured_def)
  have o: "out_of pd df cfg = out_of pd df cfg'"
    unfolding out_of_def c(2) by (rule canonicalize_cong[OF c(1)])
  have v: "out_valid_of pd df cfg = out_valid_of pd df cfg'"
    by (simp add: out_valid_of_def o assms(2))
  have k: "keyed_of pd df cfg = keyed_of pd df cfg'"
    unfolding keyed_of_def v by (rule with_dedupe_key_cong[OF c(3)])
  have d: "deduplicate pd (configured df cfg) (keyed_of pd df cfg)
         = deduplicate pd (configured df cfg') (keyed_of pd df cfg')"
    unfolding k by (rule deduplicate_cong[OF c(1)])
  show ?thesis
    by (simp add: clean_contacts_csv_stages deduped_of_def o d assms(2))
qed

text \<open>
  C9, as the specification states it: a configuration whose \<open>dedupe_key\<close> is neither
  "email" nor "full_name" is rejected when the configuration is constructed, and never
  accepted by the pipeline.  The code has no such check: the configuration with
  \<open>dedupe_key = "phone"\<close> below is constructed, the pipeline runs with it, groups the two
  rows by their full name and keeps the later one, and reports nothing.
\<close>

theorem dedupe_key_phone_accepted:
  "dedupe_key (make_config ''last_clean_date'' ''phone'' [''full_name''] None) = ''phone''
   \<and> map fst (rows (cleaned (fst (clean_contacts_csv iso_pandas
        (table [''Name'', ''Phone''] [[Str ''Ann'', Str ''1''], [Str ''Ann'', Str ''2'']])
        (make_config ''last_clean_date'' ''phone'' [''full_name''] None))))) = [1]
   \<and> report (fst (clean_contacts_csv iso_pandas
        (table [''Name'', ''Phone''] [[Str ''Ann'', Str ''1''], [Str ''Ann'', Str ''2'']])
        (make_config ''last_clean_date'' ''phone'' [''full_name''] None))) = []"
  by code_simp

text \<open>
  C9, amended: constructing a configuration stores any \<open>dedupe_key\<close> unchecked; the only
  check is the command line parser's, which accepts exactly "email" and "full_name"; and
  the pipeline treats every value other than "email" as it treats "full_name".
\<close>

theorem dedupe_key_unchecked:
  "dedupe_key (make_config d k reqs m) = k
   \<and> (dedupe_key_arg k = Inr k \<longleftrightarrow> k \<in> {''email'', ''full_name''})
   \<and> (k \<noteq> ''email'' \<longrightarrow>
        fst (clean_contacts_csv pd df (make_config d k reqs m))
          = fst (clean_contacts_csv pd df (make_config d ''full_name'' reqs m)))"
proof -
  have "fst (clean_contacts_csv pd df (make_config d k reqs m))
          = fst (clean_contacts_csv pd df (make_config d ''full_name'' reqs m))" if "k \<noteq> ''email''"
    by (rule result_cong) (use that in \<open>simp_all add: make_config_def\<close>)
  then show ?thesis
    by (simp add: make_config_def dedupe_key_arg_def)
qed

theorem dedupe_key_unchecked_witness:
  "''phone'' \<noteq> ''email''
   \<and> dedupe_key_arg ''phone'' \<noteq> Inr ''phone''
   \<and> fst (clean_contacts_csv iso_pandas
        (table [''Name'', ''Phone''] [[Str ''Ann'', Str ''1''], [Str ''Ann'', Str ''2'']])
        (make_config ''last_clean_date'' ''phone'' [''full_name''] None))
     = fst (clean_contacts_csv iso_pandas
        (table [''Name'', ''Phone''] [[Str ''Ann'', Str ''1''], [Str ''Ann'', Str ''2'']])
        (make_config ''last_clean_date'' ''full_name'' [''full_name''] None))"
  using dedupe_key_unchecked[of "''last_clean_date''" "''phone''" "[''full_name'']" None iso_pandas
      "table [''Name'', ''Phone''] [[Str ''Ann'', Str ''1''], [Str ''Ann'', Str ''2'']]"]
  by simp



section \<open>The columns of the intermediate tables\<close>









lemma date_field_configured: "date_field (configured df cfg) = date_field cfg"
  by (simp add: configured_def)

lemma required_configured: "required (configured df cfg) = required cfg"
  by (simp add: configured_def)


section \<open>Deduplication\<close>

text \<open>
  C1: when the date field is among the canonical columns and a duplicate group holds a
  row with a parsed date and a row without a date, the row with the date is retained,
  whatever the input order.  The code does not do that: \<open>sort_values\<close> puts missing
  dates last, so \<open>keep="last"\<close> retains the row without a date.  On the specification's
  own scenario (key "x@y.com", one row dated 2022-05-01, one undated) the undated row
  Bob is retained in both input orders.
\<close>

theorem missing_date_row_retained:
  "map (\<lambda>(i, r). (i, r ''full_name'', r ''last_clean_date''))
     (rows (cleaned (fst (clean_contacts_csv iso_pandas
        (table [''full_name'', ''email'', ''last_clean_date'']
           [[Str ''Ann'', Str ''x@y.com'', Str ''2022-05-01''],
            [Str ''Bob'', Str ''x@y.com'', Null]])
        default_config)))) = [(1, Str ''Bob'', NaT)]
   \<and> map (\<lambda>(i, r). (i, r ''full_name'', r ''last_clean_date''))
     (rows (cleaned (fst (clean_contacts_csv iso_pandas
        (table [''full_name'', ''email'', ''last_clean_date'']
           [[Str ''Bob'', Str ''x@y.com'', Null],
            [Str ''Ann'', Str ''x@y.com'', Str ''2022-05-01'']])
        default_config)))) = [(0, Str ''Bob'', NaT)]"
  by code_simp

text \<open>
  C3: both deduplication paths emit one \<open>deduped_removed_duplicates:key=<key>\<close> entry
  for every group with more than one member.  The path without a date column emits
  none: two rows with the key "x@y.com" and no date column leave one row and an empty
  report, while the same two rows with a date column are reported.
\<close>

theorem no_date_path_reports_nothing:
  "map (\<lambda>(i, r). (i, r ''full_name'', r ''email''))
     (rows (cleaned (fst (clean_contacts_csv iso_pandas
        (table [''full_name'', ''email'']
           [[Str ''Ann'', Str ''x@y.com''], [Str ''Bob'', Str ''x@y.com'']])
        default_config)))) = [(1, Str ''Bob'', Str ''x@y.com'')]
   \<and> report (fst (clean_contacts_csv iso_pandas
        (table [''full_name'', ''email'']
           [[Str ''Ann'', Str ''x@y.com''], [Str ''Bob'', Str ''x@y.com'']])
        default_config)) = []
   \<and> report (fst (clean_contacts_csv iso_pandas
        (table [''full_name'', ''email'', ''last_clean_date'']
           [[Str ''Ann'', Str ''x@y.com'', Null], [Str ''Bob'', Str ''x@y.com'', Null]])
        default_config))
       = [\<lparr>row = Sentinel, reason = ''deduped_removed_duplicates:key=x@y.com''\<rparr>]"
  by code_simp




section \<open>Validation and the rows of the result\<close>


























section \<open>Field canonicalization\<close>











lemma out_of_conv:
  "out_of pd df cfg =
     parse_date pd (date_field cfg)
       (normalize_email pd (normalize_full_name pd
          (build_full_name pd (project (mapping_of df cfg) df))))"
  by (simp add: out_of_def canonicalize_def mapping_of_def date_field_configured)








lemma date_cells_out:
  assumes "date_field cfg \<in> set (columns (out_of pd df cfg))"
    and "q \<in> set (rows (out_of pd df cfg))"
  shows "snd q (date_field cfg) = NaT \<or> (\<exists>t. snd q (date_field cfg) = Date t)"
proof -
  let ?E = "normalize_email pd (normalize_full_name pd
          (build_full_name pd (project (mapping_of df cfg) df)))"
  have c: "date_field cfg \<in> set (columns ?E)"
    using assms(1) by (simp add: out_of_conv columns_parse_date)
  from assms(2) obtain p where "p \<in> set (rows ?E)"
    and "snd q (date_field cfg) = to_date pd (column (date_field cfg) ?E) (snd p (date_field cfg))"
    using c by (auto simp: out_of_conv rows_parse_date)
  then show ?thesis
    by (auto simp: to_date_def split: cell.splits option.splits)
qed






section \<open>Header normalization and the auto-mapper\<close>

lemma is_space_lower_char: "is_space (lower_char c) = is_space c"
  unfolding lower_char_def is_space_def Let_def by auto

lemma lower_char_idem: "lower_char (lower_char c) = lower_char c"
  unfolding lower_char_def Let_def by auto

lemma is_space_blank: "is_space CHR '' ''"
  by (simp add: is_space_def)

lemma not_is_space_underscore: "\<not> is_space CHR ''_''"
  by (simp add: is_space_def)

lemma lower_char_underscore: "lower_char CHR ''_'' = CHR ''_''"
  by (simp add: lower_char_def)

lemma is_space_header_char: "is_space c \<Longrightarrow> is_space (header_char c)"
  by (simp add: header_char_def is_space_lower_char is_space_blank)

lemma header_char_lower: "header_char (lower_char c) = header_char c"
  by (simp add: header_char_def lower_char_idem)

lemma header_char_replace:
  "header_char (if c = CHR ''_'' then CHR '' '' else c) = header_char c"
  by (simp add: header_char_def lower_char_underscore) (simp add: lower_char_def)

lemma split_acc_spaces: "\<forall>c \<in> set b. is_space c \<Longrightarrow> split_acc w b = (if w = [] then [] else [w])"
  by (induction b arbitrary: w) auto

lemma split_acc_leading: "\<forall>c \<in> set a. is_space c \<Longrightarrow> split_acc [] (a @ s) = split_acc [] s"
  by (induction a) auto

lemma split_acc_trailing: "\<forall>c \<in> set b. is_space c \<Longrightarrow> split_acc w (s @ b) = split_acc w s"
  by (induction s arbitrary: w) (auto simp: split_acc_spaces)

lemma strip_decomp:
  "\<exists>a b. h = a @ strip h @ b \<and> (\<forall>c \<in> set a. is_space c) \<and> (\<forall>c \<in> set b. is_space c)"
proof -
  let ?h1 = "dropWhile is_space h"
  have 1: "h = takeWhile is_space h @ ?h1" by simp
  have "rev (takeWhile is_space (rev ?h1) @ dropWhile is_space (rev ?h1)) = ?h1"
    by (simp only: takeWhile_dropWhile_id rev_rev_ident)
  then have 2: "?h1 = strip h @ rev (takeWhile is_space (rev ?h1))"
    by (simp only: rev_append strip_def)
  have "h = takeWhile is_space h @ strip h @ rev (takeWhile is_space (rev ?h1))"
    using 1 2 by metis
  moreover have "\<forall>c \<in> set (takeWhile is_space h). is_space c"
    by (auto dest: set_takeWhileD)
  moreover have "\<forall>c \<in> set (rev (takeWhile is_space (rev ?h1))). is_space c"
    by (auto dest: set_takeWhileD)
  ultimately show ?thesis by blast
qed

lemma split_ws_map_strip:
  assumes "\<And>c. is_space c \<Longrightarrow> is_space (f c)"
  shows "split_ws (map f (strip h)) = split_ws (map f h)"
proof -
  from strip_decomp[of h] obtain a b where h: "h = a @ strip h @ b"
    and a: "\<forall>c \<in> set a. is_space c" and b: "\<forall>c \<in> set b. is_space c"
    by blast
  have "split_ws (map f h) = split_acc [] (map f a @ (map f (strip h) @ map f b))"
    unfolding split_ws_def by (subst h) simp
  also have "\<dots> = split_acc [] (map f (strip h) @ map f b)"
    using a assms by (intro split_acc_leading) auto
  also have "\<dots> = split_acc [] (map f (strip h))"
    using b assms by (intro split_acc_trailing) auto
  finally show ?thesis by (simp add: split_ws_def)
qed

lemma normalize_header_conv: "normalize_header h = join '' '' (split_ws (map header_char h))"
proof -
  have "replace_char CHR ''_'' CHR '' '' (lower (strip h)) = map header_char (strip h)"
    by (simp add: replace_char_def lower_def header_char_def)
  then show ?thesis
    by (simp add: normalize_header_def split_ws_map_strip is_space_header_char)
qed

lemma normalize_header_lower: "normalize_header (lower h) = normalize_header h"
  by (simp add: normalize_header_conv lower_def header_char_lower o_def)

lemma normalize_header_underscore:
  "normalize_header (replace_char CHR ''_'' CHR '' '' h) = normalize_header h"
  by (simp add: normalize_header_conv replace_char_def header_char_replace o_def)

lemma normalize_header_strip: "normalize_header (strip h) = normalize_header h"
  by (simp add: normalize_header_conv split_ws_map_strip is_space_header_char)

lemma header_char_blank: "header_char CHR '' '' = CHR '' ''"
  by (simp add: header_char_def lower_char_def)

lemma split_acc_sub_ws:
  "(b \<Longrightarrow> w = []) \<Longrightarrow>
     split_acc w (map header_char (sub_ws b h)) = split_acc w (map header_char h)"
proof (induction h arbitrary: w b)
  case Nil
  then show ?case by simp
next
  case (Cons c cs)
  show ?case
  proof (cases "is_space c")
    case True
    then have hc: "is_space (header_char c)" by (rule is_space_header_char)
    have ih: "split_acc [] (map header_char (sub_ws True cs)) = split_acc [] (map header_char cs)"
      by (rule Cons.IH) simp
    show ?thesis
    proof (cases b)
      case True
      with Cons.prems have "w = []" by simp
      with True \<open>is_space c\<close> hc ih show ?thesis by simp
    next
      case False
      with \<open>is_space c\<close> hc ih show ?thesis
        by (simp add: header_char_blank is_space_blank)
    qed
  next
    case False
    have ih: "split_acc v (map header_char (sub_ws False cs)) = split_acc v (map header_char cs)" for v
      by (rule Cons.IH) simp
    from False show ?thesis by (simp add: ih)
  qed
qed

lemma normalize_header_sub_ws: "normalize_header (sub_ws False h) = normalize_header h"
  by (simp add: normalize_header_conv split_ws_def split_acc_sub_ws)

lemma in_set_updateD: "x \<in> set (AList.update k v al) \<Longrightarrow> x = (k, v) \<or> x \<in> set al"
  by (induction al) (auto split: if_splits)

lemma norm_cols_loop:
  "\<forall>p \<in> set d. snd p = normalize_header (fst p) \<Longrightarrow>
     (\<forall>p \<in> set (foldl (\<lambda>d c. AList.update c (normalize_header c) d) d cols).
        snd p = normalize_header (fst p))
     \<and> fst ` set (foldl (\<lambda>d c. AList.update c (normalize_header c) d) d cols)
          = fst ` set d \<union> set cols"
proof (induction cols arbitrary: d)
  case Nil
  then show ?case by simp
next
  case (Cons c cs)
  have 1: "\<forall>p \<in> set (AList.update c (normalize_header c) d). snd p = normalize_header (fst p)"
    using Cons.prems by (auto dest: in_set_updateD)
  have 2: "fst ` set (AList.update c (normalize_header c) d) = insert c (fst ` set d)"
    by (simp add: dom_update)
  from Cons.IH[OF 1] 2 show ?case by auto
qed

lemma norm_cols_values: "p \<in> set (norm_cols cols) \<Longrightarrow> snd p = normalize_header (fst p)"
  using norm_cols_loop[of "[]" cols] by (simp add: norm_cols_def)

lemma norm_cols_keys: "set (map fst (norm_cols cols)) = set cols"
  using norm_cols_loop[of "[]" cols] by (simp add: norm_cols_def)

lemma norm_cols_keys_loop:
  "distinct (map fst d @ cols) \<Longrightarrow>
     map fst (foldl (\<lambda>d c. AList.update c (normalize_header c) d) d cols) = map fst d @ cols"
proof (induction cols arbitrary: d)
  case Nil
  then show ?case by simp
next
  case (Cons c cs)
  have "map fst (AList.update c (normalize_header c) d) = map fst d @ [c]"
    using Cons.prems by (auto simp: update_keys)
  with Cons.IH[of "AList.update c (normalize_header c) d"] Cons.prems show ?case
    by simp
qed

lemma norm_cols_keys_distinct: "distinct cols \<Longrightarrow> map fst (norm_cols cols) = cols"
  using norm_cols_keys_loop[of "[]" cols] by (simp add: norm_cols_def)

lemma reverse_loop:
  "map_of (foldl (\<lambda>r (k, v). AList.update v k r) r d) n =
     (case filter (\<lambda>p. snd p = n) d of [] \<Rightarrow> map_of r n | x # xs \<Rightarrow> Some (fst (last (x # xs))))"
proof (induction d arbitrary: r)
  case Nil
  then show ?case by simp
next
  case (Cons p d)
  show ?case
    by (cases p) (auto simp: Cons.IH update_conv' split: list.splits)
qed

lemma map_of_reverse:
  "map_of (reverse_of (norm_cols cols)) n =
     (if n \<in> normalize_header ` set cols
      then Some (last (filter (\<lambda>c. normalize_header c = n) (map fst (norm_cols cols))))
      else None)"
proof -
  let ?d = "norm_cols cols"
  have f: "filter (\<lambda>p. snd p = n) ?d = filter (\<lambda>p. normalize_header (fst p) = n) ?d"
    by (rule filter_cong) (auto dest: norm_cols_values)
  have m: "map fst (filter (\<lambda>p. normalize_header (fst p) = n) ?d)
             = filter (\<lambda>c. normalize_header c = n) (map fst ?d)"
    by (simp add: filter_map o_def)
  have e: "filter (\<lambda>c. normalize_header c = n) (map fst ?d) = [] \<longleftrightarrow> n \<notin> normalize_header ` set cols"
    using norm_cols_keys[of cols] by (auto simp: filter_empty_conv)
  show ?thesis
  proof (cases "filter (\<lambda>p. snd p = n) ?d")
    case Nil
    with f m e show ?thesis
      by (simp add: reverse_of_def reverse_loop)
  next
    case (Cons x xs)
    have k: "filter (\<lambda>c. normalize_header c = n) (map fst ?d)
               = map fst (filter (\<lambda>p. snd p = n) ?d)"
      by (simp only: f m)
    have "filter (\<lambda>c. normalize_header c = n) (map fst ?d) \<noteq> []"
      unfolding k using Cons by simp
    then have mem: "n \<in> normalize_header ` set cols"
      using e by blast
    have "map_of (reverse_of ?d) n = Some (fst (last (filter (\<lambda>p. snd p = n) ?d)))"
      using Cons by (simp add: reverse_of_def reverse_loop)
    also have "fst (last (filter (\<lambda>p. snd p = n) ?d))
        = last (map fst (filter (\<lambda>p. snd p = n) ?d))"
      using Cons by (simp add: last_map)
    also have "\<dots> = last (filter (\<lambda>c. normalize_header c = n) (map fst ?d))"
      by (simp only: k)
    finally show ?thesis
      using mem by simp
  qed
qed

lemma first_alias_find:
  "first_alias rv as =
     (case find (\<lambda>a. map_of rv (normalize_header a) \<noteq> None) as of
        None \<Rightarrow> None | Some a \<Rightarrow> map_of rv (normalize_header a))"
  by (induction as) (auto split: option.splits)

lemma mapping_loop:
  "distinct (map fst al) \<Longrightarrow>
     foldl (\<lambda>mapping (canonical, aliases).
                  case g aliases of
                    Some h \<Rightarrow> mapping(canonical \<mapsto> h)
                  | None \<Rightarrow> mapping) m0 al c
       = (case map_of al c of
            None \<Rightarrow> m0 c
          | Some aliases \<Rightarrow> (case g aliases of Some h \<Rightarrow> Some h | None \<Rightarrow> m0 c))"
proof (induction al arbitrary: m0)
  case Nil
  then show ?case by simp
next
  case (Cons p al)
  obtain k as where p: "p = (k, as)" by (cases p)
  from Cons.prems p have d: "distinct (map fst al)" and k: "map_of al k = None"
    by (auto simp: map_of_eq_None_iff)
  show ?case
    using k by (auto simp: p Cons.IH[OF d] split: option.splits)
qed

lemma distinct_COMMON_ALIASES: "distinct (map fst COMMON_ALIASES)"
  by (simp add: COMMON_ALIASES_def)

lemma build_auto_mapping_conv:
  "build_auto_mapping cols canonical =
     (case map_of COMMON_ALIASES canonical of
        None \<Rightarrow> None
      | Some aliases \<Rightarrow>
          (case find (\<lambda>a. normalize_header a \<in> normalize_header ` set cols) aliases of
             None \<Rightarrow> None
           | Some a \<Rightarrow> Some (last (filter (\<lambda>c. normalize_header c = normalize_header a)
                                    (map fst (norm_cols cols))))))"
proof -
  have f: "find (\<lambda>a. map_of (reverse_of (norm_cols cols)) (normalize_header a) \<noteq> None) as
         = find (\<lambda>a. normalize_header a \<in> normalize_header ` set cols) as" for as
    by (rule arg_cong[where f = "\<lambda>P. find P as"]) (simp add: map_of_reverse fun_eq_iff)
  have g: "first_alias (reverse_of (norm_cols cols)) as =
     (case find (\<lambda>a. normalize_header a \<in> normalize_header ` set cols) as of
             None \<Rightarrow> None
           | Some a \<Rightarrow> Some (last (filter (\<lambda>c. normalize_header c = normalize_header a)
                                    (map fst (norm_cols cols)))))" for as
    unfolding first_alias_find f
    by (auto split: option.splits simp: map_of_reverse dest: find_Some_iff[THEN iffD1])
  show ?thesis
    unfolding build_auto_mapping_def Let_def mapping_loop[OF distinct_COMMON_ALIASES] g
    by (auto split: option.splits)
qed

text \<open>
  C6: the auto-mapper maps a canonical field to the source header found under the
  first alias, in the declared order, whose normalized form occurs among the normalized
  source headers (of several headers with that normalized form, the last in column
  order); a canonical field without such an alias has no entry.  The normalized form of
  a header does not change with its letter case, with underscores for blanks, with
  surrounding whitespace or with the length of its whitespace runs; "E-Mail", "email"
  and "email " each map to \<open>email\<close>.
\<close>

theorem auto_mapping_first_alias:
  "build_auto_mapping cols canonical =
     (case map_of COMMON_ALIASES canonical of
        None \<Rightarrow> None
      | Some aliases \<Rightarrow>
          (case find (\<lambda>a. normalize_header a \<in> normalize_header ` set cols) aliases of
             None \<Rightarrow> None
           | Some a \<Rightarrow> Some (last (filter (\<lambda>c. normalize_header c = normalize_header a)
                                    (map fst (norm_cols cols))))))
   \<and> set (map fst (norm_cols cols)) = set cols
   \<and> (distinct cols \<longrightarrow> map fst (norm_cols cols) = cols)
   \<and> normalize_header (lower h) = normalize_header h
   \<and> normalize_header (replace_char CHR ''_'' CHR '' '' h) = normalize_header h
   \<and> normalize_header (strip h) = normalize_header h
   \<and> normalize_header (sub_ws False h) = normalize_header h
   \<and> build_auto_mapping [''E-Mail''] ''email'' = Some ''E-Mail''
   \<and> build_auto_mapping [''email''] ''email'' = Some ''email''
   \<and> build_auto_mapping [''email ''] ''email'' = Some ''email ''"
proof -
  have ex: "build_auto_mapping [''E-Mail''] ''email'' = Some ''E-Mail''"
    "build_auto_mapping [''email''] ''email'' = Some ''email''"
    "build_auto_mapping [''email ''] ''email'' = Some ''email ''"
    by code_simp+
  show ?thesis
  proof (intro conjI impI)
    show "build_auto_mapping cols canonical =
     (case map_of COMMON_ALIASES canonical of
        None \<Rightarrow> None
      | Some aliases \<Rightarrow>
          (case find (\<lambda>a. normalize_header a \<in> normalize_header ` set cols) aliases of
             None \<Rightarrow> None
           | Some a \<Rightarrow> Some (last (filter (\<lambda>c. normalize_header c = normalize_header a)
                                    (map fst (norm_cols cols))))))"
      by (rule build_auto_mapping_conv)
    show "map fst (norm_cols cols) = cols" if "distinct cols"
      using that by (rule norm_cols_keys_distinct)
  qed (rule norm_cols_keys normalize_header_lower normalize_header_underscore
         normalize_header_strip normalize_header_sub_ws ex)+
qed

theorem auto_mapping_first_alias_witness:
  "distinct [''Name'', ''E-Mail'', ''email '', ''LAST_clean   date'']
   \<and> map fst (norm_cols [''Name'', ''E-Mail'', ''email '', ''LAST_clean   date''])
       = [''Name'', ''E-Mail'', ''email '', ''LAST_clean   date'']
   \<and> build_auto_mapping [''Name'', ''E-Mail'', ''email '', ''LAST_clean   date''] ''email''
       = Some ''email ''
   \<and> build_auto_mapping [''Name'', ''E-Mail'', ''email '', ''LAST_clean   date''] ''full_name''
       = Some ''Name''
   \<and> build_auto_mapping [''Name'', ''E-Mail'', ''email '', ''LAST_clean   date''] ''last_clean_date''
       = Some ''LAST_clean   date''
   \<and> build_auto_mapping [''Name'', ''E-Mail'', ''email '', ''LAST_clean   date''] ''phone'' = None"
proof -
  let ?cols = "[''Name'', ''E-Mail'', ''email '', ''LAST_clean   date'']"
  have d: "distinct ?cols"
    by simp
  have v: "(case map_of COMMON_ALIASES c of
        None \<Rightarrow> None
      | Some aliases \<Rightarrow>
          (case find (\<lambda>a. normalize_header a \<in> normalize_header ` set ?cols) aliases of
             None \<Rightarrow> None
           | Some a \<Rightarrow> Some (last (filter (\<lambda>c. normalize_header c = normalize_header a) ?cols))))
       = r"
    if "(c, r) \<in> {(''email'', Some ''email ''), (''full_name'', Some ''Name''),
          (''last_clean_date'', Some ''LAST_clean   date''), (''phone'', None)}" for c r
    using that by (elim insertE emptyE; simp only: prod.inject; elim conjE; hypsubst; code_simp)
  have k: "map fst (norm_cols ?cols) = ?cols"
    using auto_mapping_first_alias[of ?cols "[]" "[]"] d by blast
  have m: "build_auto_mapping ?cols c =
     (case map_of COMMON_ALIASES c of
        None \<Rightarrow> None
      | Some aliases \<Rightarrow>
          (case find (\<lambda>a. normalize_header a \<in> normalize_header ` set ?cols) aliases of
             None \<Rightarrow> None
           | Some a \<Rightarrow> Some (last (filter (\<lambda>c. normalize_header c = normalize_header a) ?cols))))"
    for c
    using auto_mapping_first_alias[of ?cols c "[]"] unfolding k by blast
  show ?thesis
    using d k by (simp add: m v)
qed

end
